theory Spec2Isabelle
  imports Complex_Main "HOL-Library.Word" "HOL-Library.Log_Nat"
begin

unbundle bit_operations_syntax

section \<open>Face-region tracker of extract\_frames.py\<close>

text \<open>
  The script is Python 2 (it uses the \<^verbatim>\<open><>\<close> operator and \<^verbatim>\<open>cv2.cv\<close>), so \<^verbatim>\<open>/\<close> on two
  integers is floor division and \<^verbatim>\<open>map\<close> returns a list. Rectangle coordinates are
  pixel positions, modelled as unbounded integers.
\<close>

subsection \<open>Errors\<close>

text \<open>
  \<^verbatim>\<open>sys.exit(arg)\<close> raises SystemExit carrying \<^verbatim>\<open>arg\<close>: \<open>None\<close> when it is called with no
  argument, \<open>Some msg\<close> when it is called with a message. \<open>ValueError\<close> is what \<^verbatim>\<open>max\<close>
  raises on an empty list, \<open>IndexError\<close> what indexing an empty list raises.
\<close>

datatype failure = SysExit "string option" | ValueError | IndexError | ZeroDivisionError

subsection \<open>Rectangles and clusters\<close>

text \<open>A face as the detector returns it: \<^verbatim>\<open>(x, y, w, h)\<close>.\<close>

type_synonym face = "int \<times> int \<times> int \<times> int"

text \<open>An entry of \<^verbatim>\<open>known_faces\<close>: the dictionary with keys minX, minY, maxWidth, maxHeight, count.\<close>

record cluster =
  minX :: int
  minY :: int
  maxWidth :: int
  maxHeight :: int
  count :: int

text \<open>
  \<^verbatim>\<open>point["x"] > rect["minX"] and point["x"] < rect["minX"] + rect["maxWidth"] and
  point["y"] > rect["minY"] and point["y"] < rect["minY"] + rect["maxHeight"]\<close>
\<close>

definition point_in_rect :: "int \<times> int \<Rightarrow> cluster \<Rightarrow> bool" where
  "point_in_rect point rect =
     (fst point > minX rect \<and> fst point < minX rect + maxWidth rect \<and>
      snd point > minY rect \<and> snd point < minY rect + maxHeight rect)"

text \<open>The dictionary built when \<^verbatim>\<open>known_faces\<close> is empty (count 0).\<close>

definition new_cluster :: "face \<Rightarrow> cluster" where
  "new_cluster f = (case f of (x, y, w, h) \<Rightarrow>
     \<lparr>minX = x, minY = y, maxWidth = w, maxHeight = h, count = 0\<rparr>)"

text \<open>The dictionary built when the centre of the face lies in \<^verbatim>\<open>head\<close>.\<close>

definition merge_face :: "face \<Rightarrow> cluster \<Rightarrow> cluster" where
  "merge_face f head = (case f of (x, y, w, h) \<Rightarrow>
     \<lparr>minX = min (minX head) x, minY = min (minY head) y,
      maxWidth = max (maxWidth head) w, maxHeight = max (maxHeight head) h,
      count = count head + 1\<rparr>)"

text \<open>\<^verbatim>\<open>center_point = {"x": x + w / 2, "y": y + h / 2}\<close>, with Python 2 floor division.\<close>

definition center_point :: "face \<Rightarrow> int \<times> int" where
  "center_point f = (case f of (x, y, w, h) \<Rightarrow> (x + w div 2, y + h div 2))"

fun remember_face :: "face \<Rightarrow> cluster list \<Rightarrow> cluster list" where
  "remember_face f [] = [new_cluster f]"
| "remember_face f (head # tail) =
     (if point_in_rect (center_point f) head then merge_face f head # tail
      else head # remember_face f tail)"

subsection \<open>Detection loop and selection\<close>

text \<open>
  \<^verbatim>\<open>detect_face\<close>: the cascade classifier is an external capability, the parameter
  \<open>detectMultiScale\<close>. An empty answer ends the process through \<^verbatim>\<open>sys.exit()\<close>, called
  with no argument.
\<close>

definition detect_face :: "('f \<Rightarrow> face list) \<Rightarrow> 'f \<Rightarrow> failure + face list" where
  "detect_face detectMultiScale img =
     (let faces = detectMultiScale img
      in if length faces = 0 then Inl (SysExit None) else Inr faces)"

text \<open>
  The loop \<^verbatim>\<open>for i, frame in enumerate(framesGray)\<close> of \<^verbatim>\<open>face_pass\<close>, from index \<open>i\<close> on:
  frames whose index is not a multiple of 10 are skipped, every face of a visited frame
  is folded into \<^verbatim>\<open>known_faces\<close> in order.
\<close>

fun face_loop :: "('f \<Rightarrow> face list) \<Rightarrow> nat \<Rightarrow> 'f list \<Rightarrow> cluster list \<Rightarrow> failure + cluster list" where
  "face_loop dms i [] known_faces = Inr known_faces"
| "face_loop dms i (frame # frames) known_faces =
     (if i mod 10 \<noteq> 0 then face_loop dms (Suc i) frames known_faces
      else case detect_face dms frame of
             Inl e \<Rightarrow> Inl e
           | Inr faces \<Rightarrow>
               face_loop dms (Suc i) frames (foldl (\<lambda>known f. remember_face f known) known_faces faces))"

text \<open>
  Python's \<^verbatim>\<open>max(xs, key=k)\<close>: ValueError on an empty list; otherwise the running
  maximum is replaced only by an element whose key is strictly greater.
\<close>

fun py_max :: "('a \<Rightarrow> int) \<Rightarrow> 'a list \<Rightarrow> failure + 'a" where
  "py_max k [] = Inl ValueError"
| "py_max k (x # xs) = Inr (foldl (\<lambda>m y. if k y > k m then y else m) x xs)"

text \<open>\<^verbatim>\<open>most_significant_face = max(known_faces, key=lambda x: x["count"])\<close>\<close>

definition most_significant_face :: "cluster list \<Rightarrow> failure + cluster" where
  "most_significant_face known_faces = py_max count known_faces"

text \<open>The tracking part of \<^verbatim>\<open>face_pass\<close>: the loop from an empty list, then the selection.\<close>

definition track :: "('f \<Rightarrow> face list) \<Rightarrow> 'f list \<Rightarrow> failure + cluster" where
  "track dms framesGray =
     (case face_loop dms 0 framesGray [] of
        Inl e \<Rightarrow> Inl e
      | Inr known_faces \<Rightarrow> most_significant_face known_faces)"

section \<open>Floating-point numbers\<close>

text \<open>
  Python floats and the elements of a float64 array are IEEE-754 doubles, the elements of
  an optical-flow field are singles. A finite float is modelled as the rational it denotes,
  and an operation as the exact operation followed by rounding to the nearest number with
  \<open>p\<close> significand bits (53 for a double, 24 for a single), ties to the even significand.
  The exponent range is not modelled: frame counts, pixel positions and displacements stay
  far inside it.
\<close>

definition round_half_even :: "rat \<Rightarrow> int" where
  "round_half_even x =
     (let f = \<lfloor>x\<rfloor>; d = x - of_int f
      in if d < 1 / 2 then f else if d > 1 / 2 then f + 1 else if even f then f else f + 1)"

text \<open>\<open>ilog2 a\<close> is \<open>\<lfloor>log\<^sub>2 a\<rfloor>\<close> for a positive rational, from the bit lengths of its numerator and denominator.\<close>

definition ilog2 :: "rat \<Rightarrow> int" where
  "ilog2 a = (case quotient_of a of (n, d) \<Rightarrow>
     (let e = bitlen n - bitlen d in if 2 powi e \<le> a then e else e - 1))"

definition fl :: "nat \<Rightarrow> rat \<Rightarrow> rat" where
  "fl p x =
     (if x = 0 then 0
      else let ulp = 2 powi (ilog2 \<bar>x\<bar> - (int p - 1))
           in of_int (round_half_even (x / ulp)) * ulp)"

definition float64 :: "rat \<Rightarrow> rat" where
  "float64 x = fl 53 x"

definition float32 :: "rat \<Rightarrow> rat" where
  "float32 x = fl 24 x"

text \<open>\<^verbatim>\<open>int(x)\<close> of a float truncates towards zero.\<close>

definition py_trunc :: "rat \<Rightarrow> int" where
  "py_trunc x = (if x < 0 then \<lceil>x\<rceil> else \<lfloor>x\<rfloor>)"

section \<open>Images, cropping and masking\<close>

text \<open>
  A frame is a numpy array of unsigned bytes with axes rows, columns and channels; a
  grayscale frame is taken with one channel per pixel, a BGR frame has three.
\<close>

type_synonym ndarray = "8 word list list list"

text \<open>
  Python slicing \<^verbatim>\<open>xs[start:stop]\<close>: a negative bound counts from the end, and both bounds
  are clipped to the length; an empty range gives the empty list. It never raises.
\<close>

definition slice_bound :: "nat \<Rightarrow> int \<Rightarrow> nat" where
  "slice_bound n i = (if i < 0 then nat (max 0 (i + int n)) else min (nat i) n)"

definition py_slice :: "'a list \<Rightarrow> int \<Rightarrow> int \<Rightarrow> 'a list" where
  "py_slice xs start stop =
     (let n = length xs; a = slice_bound n start; b = slice_bound n stop
      in take (b - a) (drop a xs))"

text \<open>\<^verbatim>\<open>cropped_frame = frame[minY: minY + maxHeight, minX: minX + maxWidth]\<close>\<close>

definition crop :: "ndarray \<Rightarrow> cluster \<Rightarrow> ndarray" where
  "crop frame c =
     map (\<lambda>row. py_slice row (minX c) (minX c + maxWidth c))
       (py_slice frame (minY c) (minY c + maxHeight c))"

definition shape :: "ndarray \<Rightarrow> nat \<times> nat" where
  "shape a = (length a, case a of [] \<Rightarrow> 0 | row # _ \<Rightarrow> length row)"

definition zeros_like :: "ndarray \<Rightarrow> ndarray" where
  "zeros_like a = map (map (map (\<lambda>_. 0))) a"

text \<open>
  \<^verbatim>\<open>cv2.ellipse(mask, center, axes, 0, 0, 360, (255, 255, 255), -1)\<close> paints every pixel of
  the filled ellipse white, in every channel. Which pixels the rasteriser of OpenCV paints
  is the parameter \<open>inside\<close>: for an array of a given shape, a centre and a pair of
  semi-axes, it says whether the pixel at a row and a column is painted.
\<close>

definition ellipse ::
  "(nat \<times> nat \<Rightarrow> int \<times> int \<Rightarrow> int \<times> int \<Rightarrow> nat \<Rightarrow> nat \<Rightarrow> bool) \<Rightarrow>
   ndarray \<Rightarrow> int \<times> int \<Rightarrow> int \<times> int \<Rightarrow> ndarray" where
  "ellipse inside a center axes =
     map (\<lambda>(r, row).
            map (\<lambda>(col, px). if inside (shape a) center axes r col then map (\<lambda>_. 255) px else px)
              (enumerate 0 row))
       (enumerate 0 a)"

definition bitwise_and :: "ndarray \<Rightarrow> ndarray \<Rightarrow> ndarray" where
  "bitwise_and a b = map2 (map2 (map2 (\<lambda>x y. x AND y))) a b"

text \<open>
  \<^verbatim>\<open>center = (int(maxWidth * 0.5), int(maxHeight * 0.5))\<close> and
  \<^verbatim>\<open>axes = (int(maxWidth * 0.4), int(maxHeight * 0.5))\<close>: the integer is converted to a
  double, multiplied by the double nearest to the literal, and truncated.
\<close>

definition mask_center :: "cluster \<Rightarrow> int \<times> int" where
  "mask_center c =
     (py_trunc (float64 (float64 (of_int (maxWidth c)) * float64 (1 / 2))),
      py_trunc (float64 (float64 (of_int (maxHeight c)) * float64 (1 / 2))))"

definition mask_axes :: "cluster \<Rightarrow> int \<times> int" where
  "mask_axes c =
     (py_trunc (float64 (float64 (of_int (maxWidth c)) * float64 (2 / 5))),
      py_trunc (float64 (float64 (of_int (maxHeight c)) * float64 (1 / 2))))"

text \<open>
  The masking step of \<^verbatim>\<open>crop_and_mask\<close>, everything after the crop: a mask of zeros of the
  shape of the cropped frame, the filled ellipse painted on it, and the bitwise and of the
  cropped frame with the mask.
\<close>

definition apply_mask ::
  "(nat \<times> nat \<Rightarrow> int \<times> int \<Rightarrow> int \<times> int \<Rightarrow> nat \<Rightarrow> nat \<Rightarrow> bool) \<Rightarrow>
   ndarray \<Rightarrow> cluster \<Rightarrow> ndarray" where
  "apply_mask inside cropped_frame c =
     (let center = mask_center c;
          axes = mask_axes c;
          mask = ellipse inside (zeros_like cropped_frame) center axes
      in bitwise_and cropped_frame mask)"

definition crop_and_mask ::
  "(nat \<times> nat \<Rightarrow> int \<times> int \<Rightarrow> int \<times> int \<Rightarrow> nat \<Rightarrow> nat \<Rightarrow> bool) \<Rightarrow>
   ndarray \<Rightarrow> cluster \<Rightarrow> ndarray" where
  "crop_and_mask inside frame c = apply_mask inside (crop frame c) c"

text \<open>
  \<^verbatim>\<open>face_pass\<close>: the tracking, then the same crop and mask on every grayscale and every
  BGR frame.
\<close>

definition face_pass ::
  "(ndarray \<Rightarrow> face list) \<Rightarrow> (nat \<times> nat \<Rightarrow> int \<times> int \<Rightarrow> int \<times> int \<Rightarrow> nat \<Rightarrow> nat \<Rightarrow> bool) \<Rightarrow>
   ndarray list \<Rightarrow> ndarray list \<Rightarrow> failure + ndarray list \<times> ndarray list" where
  "face_pass dms inside framesGray framesBGR =
     (case track dms framesGray of
        Inl e \<Rightarrow> Inl e
      | Inr msf \<Rightarrow>
          Inr (map (\<lambda>f. crop_and_mask inside f msf) framesGray,
               map (\<lambda>f. crop_and_mask inside f msf) framesBGR))"

section \<open>Optical flow\<close>

definition SCALE_FLOW :: int where
  "SCALE_FLOW = 10"

text \<open>
  \<^verbatim>\<open>cv2.convertScaleAbs(src, None, alpha, beta)\<close> on a field of singles: every element is
  scaled and shifted in single precision, its absolute value is rounded to the nearest
  integer (ties to even) and saturated to an unsigned byte.
\<close>

definition saturate_cast_uchar :: "int \<Rightarrow> 8 word" where
  "saturate_cast_uchar v = word_of_int (max 0 (min 255 v))"

definition cvRound :: "rat \<Rightarrow> int" where
  "cvRound x = round_half_even x"

definition scale_shift :: "rat \<Rightarrow> rat \<Rightarrow> rat \<Rightarrow> rat" where
  "scale_shift alpha beta src = float32 (float32 (src * float32 alpha) + float32 beta)"

definition convertScaleAbs :: "rat \<Rightarrow> rat \<Rightarrow> rat \<Rightarrow> 8 word" where
  "convertScaleAbs alpha beta src = saturate_cast_uchar (cvRound \<bar>scale_shift alpha beta src\<bar>)"

text \<open>
  \<^verbatim>\<open>calculateFlow\<close>: the dense solver is an external capability, the parameter \<open>farneback\<close>,
  which gives the horizontal and vertical displacement of every pixel. The scale is
  \<^verbatim>\<open>128 / SCALE_FLOW\<close>, a floor division of two integers in Python 2.
\<close>

definition calculateFlow ::
  "(ndarray \<Rightarrow> ndarray \<Rightarrow> (rat \<times> rat) list list) \<Rightarrow> ndarray \<Rightarrow> ndarray \<Rightarrow> ndarray \<times> ndarray" where
  "calculateFlow farneback frame1 frame2 =
     (let flow = farneback frame1 frame2;
          horz = map (map (\<lambda>v. [convertScaleAbs (of_int (128 div SCALE_FLOW)) 128 (fst v)])) flow;
          vert = map (map (\<lambda>v. [convertScaleAbs (of_int (128 div SCALE_FLOW)) 128 (snd v)])) flow
      in (horz, vert))"

text \<open>\<^verbatim>\<open>[list(t) for t in zip(*flows)]\<close>: the list of the first components and the list of the second ones; nothing for no flows.\<close>

definition unzip_flows :: "('a \<times> 'a) list \<Rightarrow> 'a list list" where
  "unzip_flows flows = (if flows = [] then [] else [map fst flows, map snd flows])"

definition flow_pass_static ::
  "(ndarray \<Rightarrow> ndarray \<Rightarrow> (rat \<times> rat) list list) \<Rightarrow> ndarray list \<Rightarrow> failure + ndarray list list" where
  "flow_pass_static farneback framesGray =
     (case framesGray of
        [] \<Rightarrow> Inl IndexError
      | first # _ \<Rightarrow> Inr (unzip_flows (map (\<lambda>f. calculateFlow farneback first f) framesGray)))"

text \<open>
  \<^verbatim>\<open>framesGray[0] + framesGray\<close> adds an array to a list of arrays: numpy turns the list
  into one array and broadcasts, so the result holds, for every frame of the list, the
  element-wise sum of the first frame and that frame, in unsigned bytes.
\<close>

definition ndarray_add :: "ndarray \<Rightarrow> ndarray \<Rightarrow> ndarray" where
  "ndarray_add a b = map2 (map2 (map2 (\<lambda>x y. x + y))) a b"

definition broadcast_add :: "ndarray \<Rightarrow> ndarray list \<Rightarrow> ndarray list" where
  "broadcast_add a bs = map (\<lambda>b. ndarray_add a b) bs"

text \<open>The pairs \<^verbatim>\<open>zip(framesGray[0] + framesGray, framesGray)\<close> that \<^verbatim>\<open>flow_pass_continuous\<close> hands to \<^verbatim>\<open>calculateFlow\<close>.\<close>

definition continuous_pairs :: "ndarray list \<Rightarrow> failure + (ndarray \<times> ndarray) list" where
  "continuous_pairs framesGray =
     (case framesGray of
        [] \<Rightarrow> Inl IndexError
      | first # _ \<Rightarrow> Inr (zip (broadcast_add first framesGray) framesGray))"

definition flow_pass_continuous ::
  "(ndarray \<Rightarrow> ndarray \<Rightarrow> (rat \<times> rat) list list) \<Rightarrow> ndarray list \<Rightarrow> failure + ndarray list list" where
  "flow_pass_continuous farneback framesGray =
     (case continuous_pairs framesGray of
        Inl e \<Rightarrow> Inl e
      | Inr pairs \<Rightarrow> Inr (unzip_flows (map (\<lambda>(f1, f2). calculateFlow farneback f1 f2) pairs)))"

section \<open>Output sampling\<close>

text \<open>
  \<^verbatim>\<open>np.arange(0, stop, step)\<close> with a float step: the division \<^verbatim>\<open>(stop - 0) / step\<close> raises
  ZeroDivisionError for a zero step; the length is the ceiling of that quotient, computed
  in doubles; element \<open>i\<close> is \<^verbatim>\<open>0 + i * delta\<close>, where \<open>delta\<close> is the difference of the
  first two elements \<^verbatim>\<open>0\<close> and \<^verbatim>\<open>0 + step\<close>.
\<close>

definition arange :: "nat \<Rightarrow> rat \<Rightarrow> failure + rat list" where
  "arange stop step =
     (if step = 0 then Inl ZeroDivisionError
      else let len = nat \<lceil>float64 (float64 (of_nat stop) / step)\<rceil>;
               delta = float64 (float64 (0 + step) - 0)
           in Inr (map (\<lambda>i. float64 (0 + float64 (float64 (of_nat i) * delta))) [0..<len]))"

text \<open>
  \<^verbatim>\<open>relevant_frames\<close> of \<^verbatim>\<open>save_to_disk\<close>. With a positive \<^verbatim>\<open>max_frame_count\<close> the stride is
  the double \<^verbatim>\<open>frame_count / float(max_frame_count)\<close>; otherwise it is the integer 1 and
  \<^verbatim>\<open>np.arange(0, frame_count, 1)\<close> is the integers below \<^verbatim>\<open>frame_count\<close>.
\<close>

definition relevant_frames :: "nat \<Rightarrow> int \<Rightarrow> failure + int list" where
  "relevant_frames frame_count max_frame_count =
     (if max_frame_count > 0 then
        (let stride = float64 (float64 (of_nat frame_count) / float64 (of_int max_frame_count))
         in case arange frame_count stride of
              Inl e \<Rightarrow> Inl e
            | Inr values \<Rightarrow> Inr (map py_trunc values))
      else Inr (map int [0..<frame_count]))"

text \<open>
  \<^verbatim>\<open>save_to_disk\<close>: the frames whose index is in \<^verbatim>\<open>relevant_frames\<close> are written, in order.
  A written file is recorded as the stream name, the index (the file is
  \<^verbatim>\<open><name>_<index>.png\<close> in the output directory) and the frame.
\<close>

definition save_to_disk :: "'a list \<Rightarrow> string \<Rightarrow> int \<Rightarrow> failure + (string \<times> nat \<times> 'a) list" where
  "save_to_disk frames name max_frame_count =
     (case relevant_frames (length frames) max_frame_count of
        Inl e \<Rightarrow> Inl e
      | Inr relevant \<Rightarrow>
          Inr (map (\<lambda>(i, frame). (name, i, frame))
                 (filter (\<lambda>(i, frame). int i \<in> set relevant) (enumerate 0 frames))))"

section \<open>The command line\<close>

text \<open>
  What \<^verbatim>\<open>cv2.VideoCapture\<close> gives for a path: whether the file could be opened, the frame
  count it reports, and the frames that \<^verbatim>\<open>cap.read()\<close> delivers before it fails.
\<close>

record 'raw capture =
  cap_isOpened :: bool
  cap_frame_count :: int
  cap_frames :: "'raw list"

text \<open>
  The outside world of \<^verbatim>\<open>main\<close>: Python's \<^verbatim>\<open>int\<close> on a string (\<open>None\<close> when it raises
  ValueError), the file system, and the capabilities of OpenCV. \<^verbatim>\<open>preprocessMMI\<close> is
  colour conversion and histogram equalisation only and is taken as a capability too.
\<close>

record 'raw world =
  py_int :: "string \<Rightarrow> int option"
  abspath :: "string \<Rightarrow> string"
  isfile :: "string \<Rightarrow> bool"
  isdir :: "string \<Rightarrow> bool"
  VideoCapture :: "string \<Rightarrow> 'raw capture"
  preprocessMMI :: "'raw \<Rightarrow> ndarray \<times> ndarray"
  detectMultiScale :: "ndarray \<Rightarrow> face list"
  ellipse_inside :: "nat \<times> nat \<Rightarrow> int \<times> int \<Rightarrow> int \<times> int \<Rightarrow> nat \<Rightarrow> nat \<Rightarrow> bool"
  calcOpticalFlowFarneback :: "ndarray \<Rightarrow> ndarray \<Rightarrow> (rat \<times> rat) list list"

definition read_video :: "'raw world \<Rightarrow> string \<Rightarrow> failure + ndarray list \<times> ndarray list" where
  "read_video w video =
     (let cap = VideoCapture w video;
          frame_count = cap_frame_count cap
      in if cap_isOpened cap then
           (let frames = map (preprocessMMI w) (take (nat frame_count) (cap_frames cap))
            in Inr (map fst frames, map snd frames))
         else Inl (SysExit (Some ''Error opening video file.'')))"

text \<open>\<^verbatim>\<open>xs[i]\<close> for a non-negative index.\<close>

definition py_index :: "'a list \<Rightarrow> nat \<Rightarrow> failure + 'a" where
  "py_index xs i = (if i < length xs then Inr (xs ! i) else Inl IndexError)"

text \<open>\<^verbatim>\<open>main\<close>, on the argument vector. Its result is the list of files written.\<close>

definition main :: "'raw world \<Rightarrow> string list \<Rightarrow> failure + (string \<times> nat \<times> ndarray) list" where
  "main w argv =
     (if length argv < 4 then
        (case argv of
           [] \<Rightarrow> Inl IndexError
         | prog # _ \<Rightarrow>
             Inl (SysExit (Some (''Usage: '' @ prog @ '' <max_frame_count> <path_to_video> <output_path>''))))
      else case py_int w (argv ! 1) of
        None \<Rightarrow> Inl ValueError
      | Some max_frame_count \<Rightarrow>
         (let video_path = abspath w (argv ! 2);
              output_path = abspath w (argv ! 3)
          in if \<not> isfile w video_path then
               Inl (SysExit (Some ''The specified <path_to_video> argument is not a valid filename''))
             else if \<not> isdir w output_path then
               Inl (SysExit (Some ''The specified <output_path> argument is not a valid directory''))
             else case read_video w video_path of
               Inl e \<Rightarrow> Inl e
             | Inr (framesGray, framesBGR) \<Rightarrow>
            (case face_pass (detectMultiScale w) (ellipse_inside w) framesGray framesBGR of
               Inl e \<Rightarrow> Inl e
             | Inr (croppedFramesGray, croppedFramesBGR) \<Rightarrow>
            (case flow_pass_static (calcOpticalFlowFarneback w) croppedFramesGray of
               Inl e \<Rightarrow> Inl e
             | Inr optical_flows \<Rightarrow>
            (case flow_pass_static (calcOpticalFlowFarneback w) croppedFramesGray of
               Inl e \<Rightarrow> Inl e
             | Inr static_flows \<Rightarrow>
            (case save_to_disk croppedFramesBGR ''frame-bgr'' max_frame_count of
               Inl e \<Rightarrow> Inl e
             | Inr written1 \<Rightarrow>
            (case save_to_disk croppedFramesGray ''frame-gray'' max_frame_count of
               Inl e \<Rightarrow> Inl e
             | Inr written2 \<Rightarrow>
            (case py_index static_flows 0 of
               Inl e \<Rightarrow> Inl e
             | Inr flow_x \<Rightarrow>
            (case save_to_disk flow_x ''flow-x'' max_frame_count of
               Inl e \<Rightarrow> Inl e
             | Inr written3 \<Rightarrow>
            (case py_index static_flows 1 of
               Inl e \<Rightarrow> Inl e
             | Inr flow_y \<Rightarrow>
            (case save_to_disk flow_y ''flow-y'' max_frame_count of
               Inl e \<Rightarrow> Inl e
             | Inr written4 \<Rightarrow> Inr (written1 @ written2 @ written3 @ written4))))))))))))"

text \<open>
  How the process ends. \<^verbatim>\<open>sys.exit()\<close> with no argument ends with status 0 and prints
  nothing; \<^verbatim>\<open>sys.exit(msg)\<close> with a string prints it on standard error and ends with
  status 1; an exception that nothing catches prints a traceback and ends with status 1.
\<close>

definition exit_status :: "failure + 'a \<Rightarrow> int" where
  "exit_status r =
     (case r of
        Inr _ \<Rightarrow> 0
      | Inl (SysExit None) \<Rightarrow> 0
      | Inl (SysExit (Some msg)) \<Rightarrow> 1
      | Inl _ \<Rightarrow> 1)"

definition exit_message :: "failure + 'a \<Rightarrow> string option" where
  "exit_message r =
     (case r of
        Inr _ \<Rightarrow> None
      | Inl (SysExit arg) \<Rightarrow> arg
      | Inl _ \<Rightarrow> Some ''Traceback (most recent call last):'')"

section \<open>Properties of the tracker\<close>

subsection \<open>Helper facts\<close>

lemma remember_face_nonempty: "remember_face f ks \<noteq> []"
  by (cases ks) auto

lemma foldl_remember_nonempty:
  "faces \<noteq> [] \<or> ks \<noteq> [] \<Longrightarrow> foldl (\<lambda>known f. remember_face f known) ks faces \<noteq> []"
  by (induction faces arbitrary: ks) (auto simp: remember_face_nonempty)

lemma detect_face_Inl: "detect_face dms f = Inl e \<longleftrightarrow> e = SysExit None \<and> dms f = []"
  by (auto simp: detect_face_def Let_def)

lemma detect_face_Inr: "detect_face dms f = Inr faces \<longleftrightarrow> faces = dms f \<and> dms f \<noteq> []"
  by (auto simp: detect_face_def Let_def)

lemma ex_less_Suc_shift: "(\<exists>k < Suc n. P k) \<longleftrightarrow> P 0 \<or> (\<exists>k < n. P (Suc k))"
  by (metis less_Suc_eq_0_disj)

lemma all_less_Suc_shift: "(\<forall>k < Suc n. P k) \<longleftrightarrow> P 0 \<and> (\<forall>k < n. P (Suc k))"
  by (metis less_Suc_eq_0_disj)

lemma face_loop_aborts_iff:
  "face_loop dms i fs known = Inl e \<longleftrightarrow>
     e = SysExit None \<and> (\<exists>k < length fs. (i + k) mod 10 = 0 \<and> dms (fs ! k) = [])"
proof (induction fs arbitrary: i known)
  case Nil
  show ?case by simp
next
  case (Cons f fs)
  show ?case
  proof (cases "i mod 10 = 0")
    case False
    then show ?thesis
      using Cons.IH [of "Suc i" known] by (simp add: ex_less_Suc_shift)
  next
    case True
    show ?thesis
    proof (cases "dms f = []")
      case T: True
      then have "detect_face dms f = Inl (SysExit None)" by (simp add: detect_face_Inl)
      then show ?thesis using True T by (auto simp: ex_less_Suc_shift)
    next
      case F: False
      then have "detect_face dms f = Inr (dms f)" by (simp add: detect_face_Inr)
      then show ?thesis
        using True F Cons.IH [of "Suc i" "foldl (\<lambda>known f. remember_face f known) known (dms f)"]
        by (simp add: ex_less_Suc_shift)
    qed
  qed
qed

lemma face_loop_result_nonempty:
  "face_loop dms i fs known = Inr ks \<Longrightarrow>
     known \<noteq> [] \<or> (\<exists>k < length fs. (i + k) mod 10 = 0) \<Longrightarrow> ks \<noteq> []"
proof (induction fs arbitrary: i known)
  case Nil
  then show ?case by simp
next
  case (Cons f fs)
  show ?case
  proof (cases "i mod 10 = 0")
    case False
    with Cons.prems have "face_loop dms (Suc i) fs known = Inr ks" by simp
    moreover from Cons.prems(2) False have "known \<noteq> [] \<or> (\<exists>k < length fs. (Suc i + k) mod 10 = 0)"
      by (auto simp: ex_less_Suc_shift)
    ultimately show ?thesis by (rule Cons.IH)
  next
    case True
    show ?thesis
    proof (cases "detect_face dms f")
      case (Inl e)
      with True Cons.prems(1) show ?thesis by simp
    next
      case (Inr faces)
      then have ne: "faces \<noteq> []" by (simp add: detect_face_Inr)
      from Inr True Cons.prems(1)
      have "face_loop dms (Suc i) fs (foldl (\<lambda>known f. remember_face f known) known faces) = Inr ks"
        by simp
      moreover have "foldl (\<lambda>known f. remember_face f known) known faces \<noteq> []"
        using ne by (simp add: foldl_remember_nonempty)
      ultimately show ?thesis using Cons.IH by blast
    qed
  qed
qed

lemma py_max_nonempty: "xs \<noteq> [] \<Longrightarrow> \<exists>c. py_max k xs = Inr c"
  by (cases xs) auto

lemma py_max_not_exit: "py_max k xs \<noteq> Inl (SysExit a)"
  by (cases xs) auto

lemma filter_upt_Suc_shift:
  "length (filter P [0..<Suc n]) = (if P 0 then 1 else 0) + length (filter (\<lambda>k. P (Suc k)) [0..<n])"
proof -
  have "[0..<Suc n] = 0 # map Suc [0..<n]"
    by (simp add: upt_conv_Cons map_Suc_upt del: upt_Suc)
  then show ?thesis by (simp add: filter_map comp_def del: upt_Suc)
qed

lemma merge_same_face:
  "remember_face (10, 10, 40, 40) [\<lparr>minX = 10, minY = 10, maxWidth = 40, maxHeight = 40, count = c\<rparr>] =
     [\<lparr>minX = 10, minY = 10, maxWidth = 40, maxHeight = 40, count = c + 1\<rparr>]"
  by (simp add: point_in_rect_def center_point_def merge_face_def)

lemma face_loop_same_face:
  assumes "\<forall>k < length fs. (i + k) mod 10 = 0 \<longrightarrow> dms (fs ! k) = [(10, 10, 40, 40)]"
  shows "face_loop dms i fs [\<lparr>minX = 10, minY = 10, maxWidth = 40, maxHeight = 40, count = c\<rparr>] =
           Inr [\<lparr>minX = 10, minY = 10, maxWidth = 40, maxHeight = 40,
                 count = c + int (length (filter (\<lambda>k. (i + k) mod 10 = 0) [0..<length fs]))\<rparr>]"
  using assms
proof (induction fs arbitrary: i c)
  case Nil
  show ?case by simp
next
  case (Cons f fs)
  from Cons.prems have hd: "i mod 10 = 0 \<longrightarrow> dms f = [(10, 10, 40, 40)]"
    and tl: "\<forall>k < length fs. (Suc i + k) mod 10 = 0 \<longrightarrow> dms (fs ! k) = [(10, 10, 40, 40)]"
    by (simp_all add: all_less_Suc_shift)
  have len: "length (f # fs) = Suc (length fs)" by simp
  show ?case
  proof (cases "i mod 10 = 0")
    case False
    then show ?thesis
      using Cons.IH [OF tl, of c] unfolding len filter_upt_Suc_shift by simp
  next
    case True
    with hd have "detect_face dms f = Inr [(10, 10, 40, 40)]"
      by (simp add: detect_face_def)
    then show ?thesis
      using True Cons.IH [OF tl, of "c + 1"] unfolding len filter_upt_Suc_shift
      by (simp add: point_in_rect_def center_point_def merge_face_def add.assoc)
  qed
qed

lemma foldl_first_max:
  "\<exists>i < length (x # xs).
      foldl (\<lambda>m y. if k y > k m then y else m) x xs = (x # xs) ! i \<and>
      (\<forall>j < length (x # xs). (k ((x # xs) ! j) :: int) \<le> k ((x # xs) ! i)) \<and>
      (\<forall>j < i. k ((x # xs) ! j) < k ((x # xs) ! i))"
proof (induction xs rule: rev_induct)
  case Nil
  show ?case by simp
next
  case (snoc y ys)
  let ?f = "\<lambda>m y. if k y > k m then y else (m::'a)"
  let ?zs = "x # ys"
  let ?ws = "x # (ys @ [y])"
  from snoc obtain i where i: "i < length ?zs" "foldl ?f x ys = ?zs ! i"
    "\<forall>j < length ?zs. k (?zs ! j) \<le> k (?zs ! i)" "\<forall>j < i. k (?zs ! j) < k (?zs ! i)"
    by blast
  have old: "?ws ! j = ?zs ! j" if "j < length ?zs" for j
    using that by (metis append_Cons nth_append)
  have new: "?ws ! length ?zs = y"
    by (metis append_Cons nth_append_length)
  have len: "length ?ws = Suc (length ?zs)" by simp
  have step: "foldl ?f x (ys @ [y]) = (if k y > k (?zs ! i) then y else ?zs ! i)"
    using i(2) by simp
  show ?case
  proof (cases "k y > k (?zs ! i)")
    case True
    have "foldl ?f x (ys @ [y]) = ?ws ! length ?zs"
      using True step new by simp
    moreover have "k (?ws ! j) \<le> k (?ws ! length ?zs)" if "j < length ?ws" for j
    proof (cases "j < length ?zs")
      case True
      with i(3) have "k (?zs ! j) \<le> k (?zs ! i)" by blast
      with \<open>k y > k (?zs ! i)\<close> show ?thesis using old [OF True] new by simp
    next
      case False
      with that len have "j = length ?zs" by linarith
      then show ?thesis by simp
    qed
    moreover have "k (?ws ! j) < k (?ws ! length ?zs)" if "j < length ?zs" for j
    proof -
      from i(3) that have "k (?zs ! j) \<le> k (?zs ! i)" by blast
      with True show ?thesis using old [OF that] new by simp
    qed
    moreover have "length ?zs < length ?ws" by simp
    ultimately show ?thesis by blast
  next
    case False
    have "foldl ?f x (ys @ [y]) = ?ws ! i"
      using False step old [OF i(1)] by simp
    moreover have "k (?ws ! j) \<le> k (?ws ! i)" if "j < length ?ws" for j
    proof (cases "j < length ?zs")
      case True
      with i(3) have "k (?zs ! j) \<le> k (?zs ! i)" by blast
      then show ?thesis using old [OF True] old [OF i(1)] by simp
    next
      case F: False
      with that len have "j = length ?zs" by linarith
      then show ?thesis using False new old [OF i(1)] by simp
    qed
    moreover have "k (?ws ! j) < k (?ws ! i)" if "j < i" for j
    proof -
      from that i(1) have j: "j < length ?zs" by linarith
      from i(4) that have "k (?zs ! j) < k (?zs ! i)" by blast
      then show ?thesis using old [OF j] old [OF i(1)] by simp
    qed
    moreover have "i < length ?ws" using i(1) by simp
    ultimately show ?thesis by blast
  qed
qed

lemma merge_face_fields:
  "count (merge_face f c) = count c + 1"
  "maxWidth c \<le> maxWidth (merge_face f c)"
  "maxHeight c \<le> maxHeight (merge_face f c)"
  "minX (merge_face f c) \<le> minX c"
  "minY (merge_face f c) \<le> minY c"
  by (cases f; simp add: merge_face_def)+

lemma remember_face_keeps_or_merges:
  "i < length known \<Longrightarrow>
     remember_face f known ! i = known ! i \<or> remember_face f known ! i = merge_face f (known ! i)"
proof (induction known arbitrary: i)
  case Nil
  then show ?case by simp
next
  case (Cons head tail)
  then show ?case by (cases i) auto
qed

lemma remember_face_length: "length known \<le> length (remember_face f known)"
  by (induction known) auto

subsection \<open>The end-to-end scenario\<close>

text \<open>
  Claim C1, as amended. A 50-frame clip whose visited frames 0, 10, 20, 30, 40 each give
  exactly the rectangle (10,10,40,40) ends with exactly one cluster, with envelope
  minX = 10, minY = 10, maxWidth = 40, maxHeight = 40, and that cluster is the canonical
  region. Its count is 4, not 5: the detection that creates the cluster leaves the count at
  0 and each of the four later detections adds one.
\<close>

theorem scenario_single_cluster_count_four:
  assumes "length framesGray = 50"
    and "\<forall>i \<in> {0, 10, 20, 30, 40}. dms (framesGray ! i) = [(10, 10, 40, 40)]"
  shows "face_loop dms 0 framesGray [] =
           Inr [\<lparr>minX = 10, minY = 10, maxWidth = 40, maxHeight = 40, count = 4\<rparr>] \<and>
         track dms framesGray =
           Inr \<lparr>minX = 10, minY = 10, maxWidth = 40, maxHeight = 40, count = 4\<rparr>"
proof -
  from assms(1) obtain f fs where fs: "framesGray = f # fs" "length fs = 49"
    by (cases framesGray) auto
  from assms(2) fs have first: "dms f = [(10, 10, 40, 40)]" by simp
  have rest: "\<forall>k < length fs. (Suc 0 + k) mod 10 = 0 \<longrightarrow> dms (fs ! k) = [(10, 10, 40, 40)]"
  proof (intro allI impI)
    fix k assume k: "k < length fs" "(Suc 0 + k) mod 10 = 0"
    then have "Suc k \<in> {10, 20, 30, 40}" using fs(2) by simp presburger
    then have "dms (framesGray ! Suc k) = [(10, 10, 40, 40)]" using assms(2) by blast
    then show "dms (fs ! k) = [(10, 10, 40, 40)]" using fs(1) by simp
  qed
  have cnt: "length (filter (\<lambda>k. Suc k mod 10 = 0) [0..<49]) = 4"
    by code_simp
  have "face_loop dms 0 framesGray [] =
          face_loop dms (Suc 0) fs [\<lparr>minX = 10, minY = 10, maxWidth = 40, maxHeight = 40, count = 0\<rparr>]"
    using first by (simp add: fs(1) detect_face_def new_cluster_def)
  also have "\<dots> = Inr [\<lparr>minX = 10, minY = 10, maxWidth = 40, maxHeight = 40, count = 4\<rparr>]"
    using face_loop_same_face [OF rest, of 0] by (simp add: fs(2) cnt)
  finally have loop: "face_loop dms 0 framesGray [] =
      Inr [\<lparr>minX = 10, minY = 10, maxWidth = 40, maxHeight = 40, count = 4\<rparr>]" .
  then show ?thesis by (simp add: track_def most_significant_face_def)
qed

theorem scenario_single_cluster_count_four_witness:
  "length [0..<50] = 50 \<and>
   (\<lambda>i::nat. if i mod 10 = 0 then [(10, 10, 40, 40)] else []) ([0..<50] ! 0) = [(10, 10, 40, 40)] \<and>
   (\<lambda>i::nat. if i mod 10 = 0 then [(10, 10, 40, 40)] else []) ([0..<50] ! 10) = [(10, 10, 40, 40)] \<and>
   (\<lambda>i::nat. if i mod 10 = 0 then [(10, 10, 40, 40)] else []) ([0..<50] ! 20) = [(10, 10, 40, 40)] \<and>
   (\<lambda>i::nat. if i mod 10 = 0 then [(10, 10, 40, 40)] else []) ([0..<50] ! 30) = [(10, 10, 40, 40)] \<and>
   (\<lambda>i::nat. if i mod 10 = 0 then [(10, 10, 40, 40)] else []) ([0..<50] ! 40) = [(10, 10, 40, 40)] \<and>
   track (\<lambda>i::nat. if i mod 10 = 0 then [(10, 10, 40, 40)] else []) [0..<50] =
     Inr \<lparr>minX = 10, minY = 10, maxWidth = 40, maxHeight = 40, count = 4\<rparr>"
proof -
  let ?dms = "\<lambda>i::nat. if i mod 10 = 0 then [(10, 10, 40, 40)] else []"
  have l: "length [0..<50] = 50" by simp
  have d: "\<forall>i \<in> {0, 10, 20, 30, 40}. ?dms ([0..<50] ! i) = [(10, 10, 40, 40)]" by simp
  from scenario_single_cluster_count_four [OF l d] l d show ?thesis by simp
qed

text \<open>
  Claim C1 as stated (count 5) fails on that clip: the loop returns the single cluster with
  count 4.
\<close>

theorem scenario_count_five_counterexample:
  "face_loop (\<lambda>i::nat. if i mod 10 = 0 then [(10, 10, 40, 40)] else []) 0 [0..<50] [] =
     Inr [\<lparr>minX = 10, minY = 10, maxWidth = 40, maxHeight = 40, count = 4\<rparr>] \<and>
   face_loop (\<lambda>i::nat. if i mod 10 = 0 then [(10, 10, 40, 40)] else []) 0 [0..<50] [] \<noteq>
     Inr [\<lparr>minX = 10, minY = 10, maxWidth = 40, maxHeight = 40, count = 5\<rparr>]"
  by code_simp

subsection \<open>When tracking aborts\<close>

text \<open>
  Claim C2, as amended. Tracking ends through \<^verbatim>\<open>sys.exit()\<close> if and only if some visited
  frame (an index that is a multiple of 10) yields no candidate rectangle; when the clip is
  not empty and every visited frame yields at least one candidate, tracking completes and
  returns a canonical region.
\<close>

theorem abort_iff_visited_frame_without_face:
  "(track dms framesGray = Inl (SysExit None) \<longleftrightarrow>
      (\<exists>k < length framesGray. k mod 10 = 0 \<and> dms (framesGray ! k) = [])) \<and>
   (framesGray \<noteq> [] \<and> (\<forall>k < length framesGray. k mod 10 = 0 \<longrightarrow> dms (framesGray ! k) \<noteq> []) \<longrightarrow>
      (\<exists>c. track dms framesGray = Inr c))"
proof (intro conjI impI)
  show "track dms framesGray = Inl (SysExit None) \<longleftrightarrow>
      (\<exists>k < length framesGray. k mod 10 = 0 \<and> dms (framesGray ! k) = [])"
  proof (cases "face_loop dms 0 framesGray []")
    case (Inl e)
    then show ?thesis
      using face_loop_aborts_iff [of dms 0 framesGray "[]" e] by (simp add: track_def)
  next
    case (Inr ks)
    then have "\<not> (\<exists>k < length framesGray. k mod 10 = 0 \<and> dms (framesGray ! k) = [])"
      using face_loop_aborts_iff [of dms 0 framesGray "[]" "SysExit None"] by simp
    then show ?thesis
      using Inr by (simp add: track_def most_significant_face_def py_max_not_exit)
  qed
next
  assume a: "framesGray \<noteq> [] \<and> (\<forall>k < length framesGray. k mod 10 = 0 \<longrightarrow> dms (framesGray ! k) \<noteq> [])"
  then have "\<And>e. face_loop dms 0 framesGray [] \<noteq> Inl e"
    using face_loop_aborts_iff [of dms 0 framesGray "[]"] by auto
  then obtain ks where ks: "face_loop dms 0 framesGray [] = Inr ks"
    by (cases "face_loop dms 0 framesGray []") auto
  from a have "[] \<noteq> ([]::cluster list) \<or> (\<exists>k < length framesGray. (0 + k) mod 10 = 0)"
    by (intro disjI2 exI [of _ 0]) simp
  with ks have "ks \<noteq> []" by (rule face_loop_result_nonempty)
  then obtain c where "py_max count ks = Inr c" using py_max_nonempty by blast
  then show "\<exists>c. track dms framesGray = Inr c"
    using ks by (simp add: track_def most_significant_face_def)
qed

theorem abort_iff_visited_frame_without_face_witness:
  "[0..<11] \<noteq> [] \<and>
   (\<lambda>i::nat. [(10, 10, 40, 40)]) ([0..<11] ! 0) \<noteq> [] \<and>
   (\<lambda>i::nat. [(10, 10, 40, 40)]) ([0..<11] ! 10) \<noteq> [] \<and>
   (\<exists>c. track (\<lambda>i::nat. [(10, 10, 40, 40)]) [0..<11] = Inr c) \<and>
   track (\<lambda>i::nat. [(10, 10, 40, 40)]) [0..<11] \<noteq> Inl (SysExit None)"
  using abort_iff_visited_frame_without_face [of "\<lambda>i::nat. [(10, 10, 40, 40)]" "[0..<11]"]
  by simp

text \<open>
  Claim C2 as stated fails: on an 11-frame clip whose frame 0 yields a candidate and whose
  frame 10 yields none, a candidate was found and tracking still ends through
  \<^verbatim>\<open>sys.exit()\<close>.
\<close>

theorem abort_despite_candidate_counterexample:
  "(\<lambda>i::nat. if i = 0 then [(10, 10, 40, 40)] else []) ([0..<11] ! 0) \<noteq> [] \<and>
   track (\<lambda>i::nat. if i = 0 then [(10, 10, 40, 40)] else []) [0..<11] = Inl (SysExit None)"
  by code_simp

subsection \<open>Selection of the canonical region\<close>

text \<open>
  Claim C7. Over a non-empty cluster list the selected region is the cluster at the first
  index whose count is maximal: no cluster has a greater count and every earlier cluster has
  a strictly smaller one. Over clusters with counts 3, 5, 5 in creation order the second is
  selected.
\<close>

theorem canonical_is_first_maximum:
  "(known \<noteq> [] \<longrightarrow>
      (\<exists>i < length known.
          most_significant_face known = Inr (known ! i) \<and>
          (\<forall>j < length known. count (known ! j) \<le> count (known ! i)) \<and>
          (\<forall>j < i. count (known ! j) < count (known ! i)))) \<and>
   most_significant_face [a\<lparr>count := 3\<rparr>, b\<lparr>count := 5\<rparr>, c\<lparr>count := 5\<rparr>] = Inr (b\<lparr>count := 5\<rparr>)"
proof (intro conjI impI)
  assume "known \<noteq> []"
  then obtain x xs where k: "known = x # xs" by (cases known) auto
  show "\<exists>i < length known.
          most_significant_face known = Inr (known ! i) \<and>
          (\<forall>j < length known. count (known ! j) \<le> count (known ! i)) \<and>
          (\<forall>j < i. count (known ! j) < count (known ! i))"
    using foldl_first_max [of x xs count] unfolding k most_significant_face_def py_max.simps
    by blast
next
  show "most_significant_face [a\<lparr>count := 3\<rparr>, b\<lparr>count := 5\<rparr>, c\<lparr>count := 5\<rparr>] = Inr (b\<lparr>count := 5\<rparr>)"
    by (simp add: most_significant_face_def)
qed

theorem canonical_is_first_maximum_witness:
  "[\<lparr>minX = 0, minY = 0, maxWidth = 30, maxHeight = 30, count = 3\<rparr>,
    \<lparr>minX = 50, minY = 0, maxWidth = 30, maxHeight = 30, count = 5\<rparr>,
    \<lparr>minX = 100, minY = 0, maxWidth = 30, maxHeight = 30, count = 5\<rparr>] \<noteq> [] \<and>
   most_significant_face
     [\<lparr>minX = 0, minY = 0, maxWidth = 30, maxHeight = 30, count = 3\<rparr>,
      \<lparr>minX = 50, minY = 0, maxWidth = 30, maxHeight = 30, count = 5\<rparr>,
      \<lparr>minX = 100, minY = 0, maxWidth = 30, maxHeight = 30, count = 5\<rparr>] =
     Inr \<lparr>minX = 50, minY = 0, maxWidth = 30, maxHeight = 30, count = 5\<rparr>"
proof -
  let ?ks = "[\<lparr>minX = 0, minY = 0, maxWidth = 30, maxHeight = 30, count = 3\<rparr>,
    \<lparr>minX = 50, minY = 0, maxWidth = 30, maxHeight = 30, count = 5\<rparr>,
    \<lparr>minX = 100, minY = 0, maxWidth = 30, maxHeight = 30, count = 5\<rparr>]"
  have ne: "?ks \<noteq> []" by simp
  from canonical_is_first_maximum [of ?ks, THEN conjunct1, THEN mp, OF ne]
  obtain i where i: "i < length ?ks" "most_significant_face ?ks = Inr (?ks ! i)"
    "\<forall>j < length ?ks. count (?ks ! j) \<le> count (?ks ! i)" "\<forall>j < i. count (?ks ! j) < count (?ks ! i)"
    by blast
  from i(1) have "i = 0 \<or> i = 1 \<or> i = 2" by auto
  moreover have "i \<noteq> 0"
  proof
    assume "i = 0"
    with i(3) [rule_format, of 1] show False by simp
  qed
  moreover have "i \<noteq> 2"
  proof
    assume "i = 2"
    with i(4) [rule_format, of 1] show False by simp
  qed
  ultimately have "i = 1" by blast
  with i(2) ne show ?thesis by simp
qed

subsection \<open>Monotonicity of a cluster\<close>

text \<open>
  Claim C8, as amended. Merging any sequence of rectangles into one cluster adds exactly
  one to the count per rectangle, never decreases maxWidth or maxHeight, never moves minX
  or minY forward, and (for a cluster of non-negative size) never decreases the area of the
  envelope. One call of \<^verbatim>\<open>remember_face\<close> leaves every existing cluster unchanged or merges
  the face into it. Nothing is said of the region that the envelope covers.
\<close>

theorem cluster_monotone:
  "(let c' = foldl (\<lambda>c f. merge_face f c) c faces
    in count c' = count c + int (length faces) \<and>
       maxWidth c \<le> maxWidth c' \<and> maxHeight c \<le> maxHeight c' \<and>
       minX c' \<le> minX c \<and> minY c' \<le> minY c \<and>
       (0 \<le> maxWidth c \<and> 0 \<le> maxHeight c \<longrightarrow>
          maxWidth c * maxHeight c \<le> maxWidth c' * maxHeight c')) \<and>
   (\<forall>i < length known.
      remember_face f known ! i = known ! i \<or>
      remember_face f known ! i = merge_face f (known ! i))"
proof -
  have seq: "count (foldl (\<lambda>c f. merge_face f c) c faces) = count c + int (length faces) \<and>
       maxWidth c \<le> maxWidth (foldl (\<lambda>c f. merge_face f c) c faces) \<and>
       maxHeight c \<le> maxHeight (foldl (\<lambda>c f. merge_face f c) c faces) \<and>
       minX (foldl (\<lambda>c f. merge_face f c) c faces) \<le> minX c \<and>
       minY (foldl (\<lambda>c f. merge_face f c) c faces) \<le> minY c"
  proof (induction faces arbitrary: c)
    case Nil
    show ?case by simp
  next
    case (Cons g gs)
    from Cons [of "merge_face g c"] merge_face_fields [where f = g and c = c]
    show ?case by auto
  qed
  then have area: "maxWidth c * maxHeight c \<le>
      maxWidth (foldl (\<lambda>c f. merge_face f c) c faces) * maxHeight (foldl (\<lambda>c f. merge_face f c) c faces)"
    if "0 \<le> maxWidth c \<and> 0 \<le> maxHeight c"
    using that by (intro mult_mono) auto
  show ?thesis
    unfolding Let_def using seq area remember_face_keeps_or_merges by blast
qed

theorem cluster_monotone_witness:
  "(let c = \<lparr>minX = 10, minY = 10, maxWidth = 40, maxHeight = 40, count = 0\<rparr>;
        c' = foldl (\<lambda>c f. merge_face f c) c [(0, 10, 40, 50), (5, 5, 60, 30)]
    in 0 \<le> maxWidth c \<and> 0 \<le> maxHeight c \<and> count c' = 2 \<and>
       maxWidth c * maxHeight c \<le> maxWidth c' * maxHeight c' \<and>
       0 < length [c] \<and>
       remember_face (0, 10, 40, 50) [c] ! 0 = merge_face (0, 10, 40, 50) c)"
  using cluster_monotone [of "\<lparr>minX = 10, minY = 10, maxWidth = 40, maxHeight = 40, count = 0\<rparr>"
      "[(0, 10, 40, 50), (5, 5, 60, 30)]"
      "[\<lparr>minX = 10, minY = 10, maxWidth = 40, maxHeight = 40, count = 0\<rparr>]" "(0, 10, 40, 50)"]
  by (simp add: Let_def merge_face_def point_in_rect_def center_point_def)

text \<open>
  Claim C8 as stated fails for the region of the envelope: merging the rectangle
  (0,10,40,50), whose centre (20,35) lies in the cluster (10,10,40,40), gives the envelope
  (0,10,40,50). Its right edge moves from 50 back to 40, and the point (45,30), inside the
  envelope before the merge, is outside it afterwards.
\<close>

theorem envelope_region_shrinks_counterexample:
  "point_in_rect (center_point (0, 10, 40, 50))
     \<lparr>minX = 10, minY = 10, maxWidth = 40, maxHeight = 40, count = 0\<rparr> \<and>
   remember_face (0, 10, 40, 50)
     [\<lparr>minX = 10, minY = 10, maxWidth = 40, maxHeight = 40, count = 0\<rparr>] =
     [\<lparr>minX = 0, minY = 10, maxWidth = 40, maxHeight = 50, count = 1\<rparr>] \<and>
   point_in_rect (45, 30) \<lparr>minX = 10, minY = 10, maxWidth = 40, maxHeight = 40, count = 0\<rparr> \<and>
   \<not> point_in_rect (45, 30)
       (merge_face (0, 10, 40, 50)
          \<lparr>minX = 10, minY = 10, maxWidth = 40, maxHeight = 40, count = 0\<rparr>) \<and>
   minX (merge_face (0, 10, 40, 50)
           \<lparr>minX = 10, minY = 10, maxWidth = 40, maxHeight = 40, count = 0\<rparr>) +
   maxWidth (merge_face (0, 10, 40, 50)
           \<lparr>minX = 10, minY = 10, maxWidth = 40, maxHeight = 40, count = 0\<rparr>) <
   minX \<lparr>minX = 10, minY = 10, maxWidth = 40, maxHeight = 40, count = 0\<rparr> +
   maxWidth \<lparr>minX = 10, minY = 10, maxWidth = 40, maxHeight = 40, count = 0\<rparr>"
  by (simp add: point_in_rect_def center_point_def merge_face_def)

section \<open>Properties of cropping and masking\<close>

subsection \<open>Helper facts\<close>

lemma length_py_slice_le: "length (py_slice xs a b) \<le> length xs"
  by (simp add: py_slice_def Let_def)

lemma length_py_slice_nonneg:
  "0 \<le> a \<Longrightarrow> 0 \<le> b \<Longrightarrow>
     length (py_slice xs a b) = min (length xs) (nat b) - min (length xs) (nat a)"
  by (auto simp: py_slice_def Let_def slice_bound_def min_def)

lemma set_py_slice: "set (py_slice xs a b) \<subseteq> set xs"
  unfolding py_slice_def Let_def
  by (meson set_take_subset set_drop_subset subset_trans)

lemma length_crop_le: "length (crop frame c) \<le> length frame"
  by (simp add: crop_def length_py_slice_le)

lemma crop_row:
  "row \<in> set (crop frame c) \<Longrightarrow>
     \<exists>src \<in> set frame. row = py_slice src (minX c) (minX c + maxWidth c)"
  using set_py_slice [of frame "minY c" "minY c + maxHeight c"]
  by (auto simp: crop_def)

lemma and_white: "(x :: 8 word) AND 255 = x"
proof -
  have "(255 :: 8 word) = - 1" by simp
  then show ?thesis by (simp only: and.right_neutral)
qed

lemma map2_and_white: "map2 (\<lambda>x y. x AND y) px (map (\<lambda>_. 255) px) = (px :: 8 word list)"
  by (induction px) (simp_all add: and_white)

lemma map2_and_black: "map2 (\<lambda>x y. x AND y) px (map (\<lambda>_. 0) px) = map (\<lambda>_. 0 :: 8 word) px"
  by (induction px) simp_all

lemma map2_enumerate_map:
  "map2 F xs (map (\<lambda>(i, x). G i x) (enumerate n (map Z xs))) =
     map (\<lambda>(i, x). F x (G i (Z x))) (enumerate n xs)"
  by (induction xs arbitrary: n) simp_all

lemma map_enumerate_map_enumerate:
  "map (\<lambda>(i, x). H i x) (enumerate n (map (\<lambda>(i, x). K i x) (enumerate n xs))) =
     map (\<lambda>(i, x). H i (K i x)) (enumerate n xs)"
  by (induction xs arbitrary: n) simp_all

lemma map_length_enumerate:
  "map (\<lambda>(i, x). length (map (G i) (enumerate m x))) (enumerate n xs) = map length xs"
  by (induction xs arbitrary: n) simp_all

lemma shape_zeros_like: "shape (zeros_like a) = shape a"
  by (cases a) (simp_all add: shape_def zeros_like_def)

text \<open>The masking step pixel by pixel: a painted pixel is kept, any other becomes zero.\<close>

lemma apply_mask_direct:
  "apply_mask inside a c =
     map (\<lambda>(r, row).
            map (\<lambda>(col, px). if inside (shape a) (mask_center c) (mask_axes c) r col then px
                              else map (\<lambda>_. 0) px)
              (enumerate 0 row))
       (enumerate 0 a)"
proof -
  let ?P = "inside (shape a) (mask_center c) (mask_axes c)"
  have row: "map2 (map2 (\<lambda>x y. x AND y)) row
               (map (\<lambda>(col, px). if ?P r col then map (\<lambda>_. 255) px else px) (enumerate 0 (map (map (\<lambda>_. 0)) row)))
             = map (\<lambda>(col, px). if ?P r col then px else map (\<lambda>_. 0) px) (enumerate 0 row)"
    for row :: "8 word list list" and r
    unfolding map2_enumerate_map [of "map2 (\<lambda>x y. x AND y)" row "\<lambda>col px. if ?P r col then map (\<lambda>_. 255) px else px" 0 "map (\<lambda>_. 0)"]
    by (auto simp: comp_def map2_and_white map2_and_black)
  show ?thesis
    unfolding apply_mask_def Let_def bitwise_and_def ellipse_def shape_zeros_like
    unfolding zeros_like_def
    unfolding map2_enumerate_map [of "map2 (map2 (\<lambda>x y. x AND y))" a
        "\<lambda>r row. map (\<lambda>(col, px). if ?P r col then map (\<lambda>_. 255) px else px) (enumerate 0 row)" 0
        "map (map (\<lambda>_. 0))"]
    by (simp add: row)
qed

lemma shape_apply_mask: "shape (apply_mask inside a c) = shape a"
  unfolding apply_mask_direct by (cases a) (simp_all add: shape_def)

lemma map_length_apply_mask: "map length (apply_mask inside a c) = map length a"
proof -
  have "map length (apply_mask inside a c) =
      map (\<lambda>(r, row). length (map (\<lambda>(col, px). if inside (shape a) (mask_center c) (mask_axes c) r col then px
                              else map (\<lambda>_. 0) px) (enumerate 0 row))) (enumerate 0 a)"
    unfolding apply_mask_direct by (simp add: comp_def split_def)
  also have "\<dots> = map length a"
    by (rule map_length_enumerate)
  finally show ?thesis .
qed

subsection \<open>The crop stays inside the frame\<close>

text \<open>
  Claim C9. The crop is a slice, which clips its bounds to the array and never raises. For
  a frame whose rows all have width \<open>w\<close>, the cropped frame has at most as many rows as
  the frame and every row has at most \<open>w\<close> pixels; for a region with non-negative origin
  and size the cropped height is \<open>min(height, minY + maxHeight) - min(height, minY)\<close> and
  the cropped width is \<open>min(w, minX + maxWidth) - min(w, minX)\<close>. The masked result has the
  rows and row widths of the cropped frame.
\<close>

theorem crop_within_frame:
  assumes "\<forall>row \<in> set frame. length row = w"
  shows "length (crop frame c) \<le> length frame \<and>
         (\<forall>row \<in> set (crop frame c). length row \<le> w) \<and>
         (0 \<le> minX c \<and> 0 \<le> minY c \<and> 0 \<le> maxWidth c \<and> 0 \<le> maxHeight c \<longrightarrow>
            length (crop frame c) =
              min (length frame) (nat (minY c + maxHeight c)) - min (length frame) (nat (minY c)) \<and>
            (\<forall>row \<in> set (crop frame c).
               length row = min w (nat (minX c + maxWidth c)) - min w (nat (minX c)))) \<and>
         map length (crop_and_mask inside frame c) = map length (crop frame c)"
proof (intro conjI impI ballI)
  show "length (crop frame c) \<le> length frame" by (rule length_crop_le)
next
  fix row assume "row \<in> set (crop frame c)"
  then obtain src where "src \<in> set frame" "row = py_slice src (minX c) (minX c + maxWidth c)"
    using crop_row by blast
  then show "length row \<le> w"
    using assms length_py_slice_le [of src] by auto
next
  assume h: "0 \<le> minX c \<and> 0 \<le> minY c \<and> 0 \<le> maxWidth c \<and> 0 \<le> maxHeight c"
  then show "length (crop frame c) =
      min (length frame) (nat (minY c + maxHeight c)) - min (length frame) (nat (minY c))"
    by (simp add: crop_def length_py_slice_nonneg)
next
  fix row
  assume h: "0 \<le> minX c \<and> 0 \<le> minY c \<and> 0 \<le> maxWidth c \<and> 0 \<le> maxHeight c"
    and "row \<in> set (crop frame c)"
  then obtain src where "src \<in> set frame" "row = py_slice src (minX c) (minX c + maxWidth c)"
    using crop_row by blast
  then show "length row = min w (nat (minX c + maxWidth c)) - min w (nat (minX c))"
    using assms h by (simp add: length_py_slice_nonneg)
next
  show "map length (crop_and_mask inside frame c) = map length (crop frame c)"
    unfolding crop_and_mask_def by (rule map_length_apply_mask)
qed

theorem crop_within_frame_witness:
  "length [[1], [2], [3 :: 8 word]] = 3 \<and> length [[4], [5], [6 :: 8 word]] = 3 \<and>
   0 \<le> minX \<lparr>minX = 1, minY = 1, maxWidth = 5, maxHeight = 5, count = 0\<rparr> \<and>
   0 \<le> minY \<lparr>minX = 1, minY = 1, maxWidth = 5, maxHeight = 5, count = 0\<rparr> \<and>
   0 \<le> maxWidth \<lparr>minX = 1, minY = 1, maxWidth = 5, maxHeight = 5, count = 0\<rparr> \<and>
   0 \<le> maxHeight \<lparr>minX = 1, minY = 1, maxWidth = 5, maxHeight = 5, count = 0\<rparr> \<and>
   crop [[[1], [2], [3]], [[4], [5], [6]]]
     \<lparr>minX = 1, minY = 1, maxWidth = 5, maxHeight = 5, count = 0\<rparr> = [[[5], [6]]] \<and>
   length (crop [[[1], [2], [3]], [[4], [5], [6]]]
     \<lparr>minX = 1, minY = 1, maxWidth = 5, maxHeight = 5, count = 0\<rparr>) = 1 \<and>
   map length (crop_and_mask (\<lambda>shp center axes r col. True) [[[1], [2], [3]], [[4], [5], [6]]]
     \<lparr>minX = 1, minY = 1, maxWidth = 5, maxHeight = 5, count = 0\<rparr>) = [2]"
proof -
  let ?frame = "[[[1], [2], [3]], [[4], [5], [6 :: 8 word]]]"
  let ?c = "\<lparr>minX = 1, minY = 1, maxWidth = 5, maxHeight = 5, count = 0\<rparr>"
  have r: "\<forall>row \<in> set ?frame. length row = 3" by simp
  have v: "crop ?frame ?c = [[[5], [6]]]"
    by (simp add: crop_def py_slice_def slice_bound_def)
  from crop_within_frame [OF r, of ?c "\<lambda>shp center axes r col. True"] v
  show ?thesis by simp
qed

subsection \<open>Masking twice\<close>

text \<open>
  Claim C10. The masking step is idempotent: masking an already masked frame with the same
  region gives the same frame, also when the frame is the result of the whole crop and
  mask; the masking step keeps every pixel that the ellipse paints and sets every other
  pixel to zero.
\<close>

theorem mask_idempotent:
  "apply_mask inside (apply_mask inside a c) c = apply_mask inside a c \<and>
   apply_mask inside (crop_and_mask inside frame c) c = crop_and_mask inside frame c \<and>
   apply_mask inside a c =
     map (\<lambda>(r, row).
            map (\<lambda>(col, px). if inside (shape a) (mask_center c) (mask_axes c) r col then px
                              else map (\<lambda>_. 0) px)
              (enumerate 0 row))
       (enumerate 0 a)"
proof -
  have idem: "apply_mask inside (apply_mask inside b c) c = apply_mask inside b c" for b
  proof -
    let ?P = "inside (shape b) (mask_center c) (mask_axes c)"
    have "apply_mask inside (apply_mask inside b c) c =
        map (\<lambda>(r, row).
            map (\<lambda>(col, px). if ?P r col then px else map (\<lambda>_. 0) px) (enumerate 0 row))
          (enumerate 0 (apply_mask inside b c))"
      by (subst apply_mask_direct) (simp only: shape_apply_mask)
    also have "\<dots> = apply_mask inside b c"
      unfolding apply_mask_direct [of inside b c]
      unfolding map_enumerate_map_enumerate
        [of "\<lambda>r row. map (\<lambda>(col, px). if ?P r col then px else map (\<lambda>_. 0) px) (enumerate 0 row)" 0
            "\<lambda>r row. map (\<lambda>(col, px). if ?P r col then px else map (\<lambda>_. 0) px) (enumerate 0 row)" b]
      unfolding map_enumerate_map_enumerate
      by (simp add: comp_def cong: if_cong)
    finally show ?thesis .
  qed
  show ?thesis unfolding crop_and_mask_def using idem apply_mask_direct by blast
qed

theorem mask_idempotent_witness:
  "apply_mask (\<lambda>shp center axes r col. col = 1) [[[7], [8], [9]]]
     \<lparr>minX = 0, minY = 0, maxWidth = 3, maxHeight = 1, count = 0\<rparr> = [[[0], [8], [0]]] \<and>
   apply_mask (\<lambda>shp center axes r col. col = 1)
     (apply_mask (\<lambda>shp center axes r col. col = 1) [[[7], [8], [9]]]
        \<lparr>minX = 0, minY = 0, maxWidth = 3, maxHeight = 1, count = 0\<rparr>)
     \<lparr>minX = 0, minY = 0, maxWidth = 3, maxHeight = 1, count = 0\<rparr> = [[[0], [8], [0]]]"
proof -
  let ?i = "\<lambda>(shp :: nat \<times> nat) (center :: int \<times> int) (axes :: int \<times> int) (r :: nat) (col :: nat). col = 1"
  let ?c = "\<lparr>minX = 0, minY = 0, maxWidth = 3, maxHeight = 1, count = 0\<rparr>"
  have v: "apply_mask ?i [[[7], [8], [9]]] ?c = [[[0], [8], [0]]]"
    by (simp add: apply_mask_def Let_def ellipse_def zeros_like_def bitwise_and_def and_white)
  from mask_idempotent [of ?i "[[[7], [8], [9]]]" ?c, THEN conjunct1] v
  show ?thesis by simp
qed

section \<open>Properties of the flow fields\<close>

subsection \<open>Rescaling to bytes\<close>

lemma round_half_even_nonneg: "0 \<le> x \<Longrightarrow> 0 \<le> round_half_even x"
  by (auto simp: round_half_even_def Let_def)

lemma uint_saturate_cast_uchar: "uint (saturate_cast_uchar v) = max 0 (min 255 v)"
proof -
  have "0 \<le> max 0 (min 255 v)" "max 0 (min 255 v) < 2 ^ 8" by simp_all
  then have "take_bit 8 (max 0 (min 255 v)) = max 0 (min 255 v)"
    by (simp only: take_bit_int_eq_self)
  then show ?thesis
    by (simp add: saturate_cast_uchar_def uint_word_of_int_eq)
qed

lemma zero_flow: "convertScaleAbs (of_int (128 div SCALE_FLOW)) 128 0 = 128"
  by code_simp

text \<open>With \<^verbatim>\<open>SCALE_FLOW = 10\<close> the scale \<^verbatim>\<open>128 / SCALE_FLOW\<close> is 12, so that 10 and -10 pixels are stored as 248 and 8.\<close>

lemma scale_is_twelve: "128 div SCALE_FLOW = 12"
  by (simp add: SCALE_FLOW_def)

lemma ten_pixels:
  "convertScaleAbs (of_int (128 div SCALE_FLOW)) 128 10 = 248"
  "convertScaleAbs (of_int (128 div SCALE_FLOW)) 128 (- 10) = 8"
  by code_simp+

text \<open>
  Claim C3, as amended. Every stored flow value is the saturated absolute value
  \<open>min(255, round(|raw * scale + 128|))\<close>, with scale \<^verbatim>\<open>128 / SCALE_FLOW\<close>, the scaling and
  the shift done in single precision and the rounding to the nearest integer; it is
  \<open>clip(round(raw * scale + 128), 0, 255)\<close> whenever the scaled and shifted value is not
  negative; a zero displacement is stored as 128.
\<close>

theorem flow_value_saturated_abs:
  "uint (convertScaleAbs (of_int (128 div SCALE_FLOW)) 128 raw) =
     min 255 (cvRound \<bar>scale_shift (of_int (128 div SCALE_FLOW)) 128 raw\<bar>) \<and>
   (0 \<le> scale_shift (of_int (128 div SCALE_FLOW)) 128 raw \<longrightarrow>
      uint (convertScaleAbs (of_int (128 div SCALE_FLOW)) 128 raw) =
        max 0 (min 255 (cvRound (scale_shift (of_int (128 div SCALE_FLOW)) 128 raw)))) \<and>
   convertScaleAbs (of_int (128 div SCALE_FLOW)) 128 0 = 128 \<and>
   calculateFlow farneback frame1 frame2 =
     (map (map (\<lambda>v. [convertScaleAbs (of_int (128 div SCALE_FLOW)) 128 (fst v)])) (farneback frame1 frame2),
      map (map (\<lambda>v. [convertScaleAbs (of_int (128 div SCALE_FLOW)) 128 (snd v)])) (farneback frame1 frame2))"
proof -
  let ?v = "scale_shift (of_int (128 div SCALE_FLOW)) 128 raw"
  have nn: "0 \<le> cvRound \<bar>?v\<bar>"
    unfolding cvRound_def by (rule round_half_even_nonneg) simp
  have a: "uint (convertScaleAbs (of_int (128 div SCALE_FLOW)) 128 raw) = min 255 (cvRound \<bar>?v\<bar>)"
    using nn by (simp add: convertScaleAbs_def uint_saturate_cast_uchar)
  have b: "uint (convertScaleAbs (of_int (128 div SCALE_FLOW)) 128 raw) = max 0 (min 255 (cvRound ?v))"
    if "0 \<le> ?v"
  proof -
    from that have "\<bar>?v\<bar> = ?v" by simp
    then show ?thesis by (simp add: convertScaleAbs_def uint_saturate_cast_uchar)
  qed
  show ?thesis
    using a b zero_flow by (simp add: calculateFlow_def Let_def)
qed

theorem flow_value_saturated_abs_witness:
  "0 \<le> scale_shift (of_int (128 div SCALE_FLOW)) 128 10 \<and>
   uint (convertScaleAbs (of_int (128 div SCALE_FLOW)) 128 10) = 248"
proof -
  have s: "scale_shift (of_int (128 div SCALE_FLOW)) 128 10 = 248" by code_simp
  have r: "cvRound 248 = 248" by code_simp
  from flow_value_saturated_abs [of 10] s r show ?thesis by simp
qed

text \<open>
  Claim C3 as stated fails at a displacement of -20 pixels: the scaled and shifted value
  is negative, the clip would store 0, and the absolute value stores 112.
\<close>

theorem flow_clip_counterexample:
  "uint (convertScaleAbs (of_int (128 div SCALE_FLOW)) 128 (- 20)) = 112 \<and>
   max 0 (min 255 (cvRound (- 20 * of_int (128 div SCALE_FLOW) + 128))) = 0 \<and>
   uint (convertScaleAbs (of_int (128 div SCALE_FLOW)) 128 (- 20)) \<noteq>
     max 0 (min 255 (cvRound (- 20 * of_int (128 div SCALE_FLOW) + 128)))"
  by code_simp

subsection \<open>The continuous policy\<close>

lemma continuous_pairs_length:
  "continuous_pairs framesGray = Inr pairs \<Longrightarrow> length pairs = length framesGray"
  by (cases framesGray) (auto simp: continuous_pairs_def broadcast_add_def)

lemma continuous_pairs_nth:
  "continuous_pairs framesGray = Inr pairs \<Longrightarrow> i < length framesGray \<Longrightarrow>
     pairs ! i = (ndarray_add (framesGray ! 0) (framesGray ! i), framesGray ! i)"
  by (cases framesGray; cases i) (auto simp: continuous_pairs_def broadcast_add_def)

text \<open>
  Claim C4. On two one-pixel frames with values 1 and 2 the flow at index 0 is computed
  between the frame 2 (the first frame added to itself) and the frame 1, and the flow at
  index 1 between the frame 3 (the sum of both frames) and the frame 2: not between the
  first frame and itself, and not between frame 0 and frame 1.
\<close>

theorem continuous_pairs_sum_not_predecessor:
  "continuous_pairs [[[[1]]], [[[2]]]] = Inr [([[[2]]], [[[1]]]), ([[[3]]], [[[2]]])] \<and>
   continuous_pairs [[[[1]]], [[[2]]]] \<noteq> Inr [([[[1]]], [[[1]]]), ([[[1]]], [[[2]]])]"
  by (simp add: continuous_pairs_def broadcast_add_def ndarray_add_def)

section \<open>Properties of the rounding\<close>

text \<open>
  The rounding on known values: the doubles nearest to 0.4 and to 15/13 and the single
  nearest to 0.1 (in Python, \<^verbatim>\<open>(0.4).hex()\<close> is \<^verbatim>\<open>0x1.999999999999ap-2\<close>), numbers that are
  floats already, and ties, which go to the even significand.
\<close>

lemma float_examples:
  "float64 (2 / 5) = 3602879701896397 / 2 ^ 53"
  "float64 (15 / 13) = 2598230554252209 / 2 ^ 51"
  "float32 (1 / 10) = 13421773 / 2 ^ 27"
  "float64 15 = 15" "float64 (1 / 2) = 1 / 2" "float64 (- 3 / 4) = - 3 / 4"
  "fl 3 9 = 8" "fl 3 11 = 12" "fl 3 (- 9) = - 8"
  "ilog2 1 = 0" "ilog2 (1 / 2) = - 1" "ilog2 (7 / 8) = - 1" "ilog2 3 = 1" "ilog2 1024 = 10"
  by code_simp+

section \<open>Properties of the output sampling\<close>

lemma relevant_15_13:
  "relevant_frames 15 13 = Inr [0, 1, 2, 3, 4, 5, 6, 8, 9, 10, 11, 12, 13, 14]"
  by code_simp

lemma relevant_100_10: "relevant_frames 100 10 = Inr [0, 10, 20, 30, 40, 50, 60, 70, 80, 90]"
  by code_simp

lemma relevant_3_10: "relevant_frames 3 10 = Inr [0, 0, 0, 0, 1, 1, 1, 2, 2, 2]"
  by code_simp

lemma relevant_all: "max_frame_count \<le> 0 \<Longrightarrow> relevant_frames n max_frame_count = Inr (map int [0..<n])"
  by (simp add: relevant_frames_def)

text \<open>The examples of the sampler: 100 frames and a budget of 10, 5 frames and no budget, 3 frames and a budget of 10.\<close>

lemma sampler_examples:
  "save_to_disk [0..<100 :: nat] name 10 =
     Inr (map (\<lambda>i. (name, i, i)) [0, 10, 20, 30, 40, 50, 60, 70, 80, 90])"
  "save_to_disk [0..<5 :: nat] name 0 = Inr (map (\<lambda>i. (name, i, i)) [0, 1, 2, 3, 4])"
  "save_to_disk [0..<3 :: nat] name 10 = Inr (map (\<lambda>i. (name, i, i)) [0, 1, 2])"
proof -
  have len: "length [0..<100 :: nat] = 100" "length [0..<5 :: nat] = 5" "length [0..<3 :: nat] = 3"
    by simp_all
  have all: "relevant_frames 5 0 = Inr (map int [0..<5])"
    by (simp add: relevant_all)
  show "save_to_disk [0..<100 :: nat] name 10 =
     Inr (map (\<lambda>i. (name, i, i)) [0, 10, 20, 30, 40, 50, 60, 70, 80, 90])"
    unfolding save_to_disk_def len relevant_100_10 by code_simp
  show "save_to_disk [0..<5 :: nat] name 0 = Inr (map (\<lambda>i. (name, i, i)) [0, 1, 2, 3, 4])"
    unfolding save_to_disk_def len all by code_simp
  show "save_to_disk [0..<3 :: nat] name 10 = Inr (map (\<lambda>i. (name, i, i)) [0, 1, 2])"
    unfolding save_to_disk_def len relevant_3_10 by code_simp
qed

text \<open>
  Claim C5. With 15 frames and \<^verbatim>\<open>max_frame_count = 13\<close> the stride is the double nearest to
  15/13, the quotient \<^verbatim>\<open>15 / stride\<close> rounds to a double just above 13, so the range has 14
  elements, and the last one, \<^verbatim>\<open>13 * stride\<close>, is a double just below 15 that truncates to
  14: 14 frames are written, one more than the budget, and frame 14 is none of
  \<open>\<lfloor>i * 15 / 13\<rfloor>\<close> for \<open>i\<close> from 0 to 12.
\<close>

theorem sampler_exceeds_budget:
  "save_to_disk [0..<15 :: nat] ''frame-gray'' 13 =
     Inr (map (\<lambda>i. (''frame-gray'', i, i)) [0, 1, 2, 3, 4, 5, 6, 8, 9, 10, 11, 12, 13, 14]) \<and>
   length (map (\<lambda>i. (''frame-gray'', i, i)) [0, 1, 2, 3, 4, 5, 6, 8, 9, 10, 11, 12, 13, 14 :: nat]) = 14 \<and>
   map (\<lambda>i. \<lfloor>of_nat i * (15 / 13 :: rat)\<rfloor>) [0..<13] = [0, 1, 2, 3, 4, 5, 6, 8, 9, 10, 11, 12, 13]"
proof -
  have len: "length [0..<15 :: nat] = 15" by simp
  have exact: "map (\<lambda>i. \<lfloor>of_nat i * (15 / 13 :: rat)\<rfloor>) [0..<13] = [0, 1, 2, 3, 4, 5, 6, 8, 9, 10, 11, 12, 13]"
    by code_simp
  have written: "save_to_disk [0..<15 :: nat] ''frame-gray'' 13 =
     Inr (map (\<lambda>i. (''frame-gray'', i, i)) [0, 1, 2, 3, 4, 5, 6, 8, 9, 10, 11, 12, 13, 14])"
    unfolding save_to_disk_def len relevant_15_13 by code_simp
  show ?thesis using exact written by simp
qed

section \<open>Properties of the command line\<close>

text \<open>The three argument failures end with status 1 and their message.\<close>

lemma main_argument_failures:
  "length argv < 4 \<Longrightarrow> argv \<noteq> [] \<Longrightarrow>
     exit_status (main w argv) = 1 \<and>
     exit_message (main w argv) =
       Some (''Usage: '' @ hd argv @ '' <max_frame_count> <path_to_video> <output_path>'')"
  "4 \<le> length argv \<Longrightarrow> py_int w (argv ! 1) = Some m \<Longrightarrow> \<not> isfile w (abspath w (argv ! 2)) \<Longrightarrow>
     exit_status (main w argv) = 1 \<and>
     exit_message (main w argv) =
       Some ''The specified <path_to_video> argument is not a valid filename''"
  "4 \<le> length argv \<Longrightarrow> py_int w (argv ! 1) = Some m \<Longrightarrow> isfile w (abspath w (argv ! 2)) \<Longrightarrow>
     \<not> isdir w (abspath w (argv ! 3)) \<Longrightarrow>
     exit_status (main w argv) = 1 \<and>
     exit_message (main w argv) =
       Some ''The specified <output_path> argument is not a valid directory''"
  by (cases argv; simp add: main_def exit_status_def exit_message_def Let_def)+

text \<open>A visited frame without a face ends the process with status 0 and no message.\<close>

lemma main_no_face:
  "4 \<le> length argv \<Longrightarrow> py_int w (argv ! 1) = Some m \<Longrightarrow> isfile w (abspath w (argv ! 2)) \<Longrightarrow>
     isdir w (abspath w (argv ! 3)) \<Longrightarrow>
     read_video w (abspath w (argv ! 2)) = Inr (framesGray, framesBGR) \<Longrightarrow>
     track (detectMultiScale w) framesGray = Inl (SysExit None) \<Longrightarrow>
     exit_status (main w argv) = 0 \<and> exit_message (main w argv) = None"
  by (simp add: main_def exit_status_def exit_message_def Let_def face_pass_def)

text \<open>
  Claim C6. With four arguments, an existing video of one frame, an existing output
  directory and a detector that finds no face in frame 0, \<^verbatim>\<open>main\<close> ends through
  \<^verbatim>\<open>sys.exit()\<close> without an argument: the exit status is 0 and no message is printed.
\<close>

theorem no_face_exits_with_status_zero:
  "main \<lparr>py_int = (\<lambda>s. if s = ''10'' then Some 10 else None),
         abspath = (\<lambda>p. ''/data/'' @ p),
         isfile = (\<lambda>p. p = ''/data/clip.avi''),
         isdir = (\<lambda>p. p = ''/data/out''),
         VideoCapture = (\<lambda>p. \<lparr>cap_isOpened = True, cap_frame_count = 1, cap_frames = [0::nat]\<rparr>),
         preprocessMMI = (\<lambda>raw. ([[[0]]], [[[0, 0, 0]]])),
         detectMultiScale = (\<lambda>img. []),
         ellipse_inside = (\<lambda>shp center axes r col. True),
         calcOpticalFlowFarneback = (\<lambda>f1 f2. [[(0, 0)]])\<rparr>
      [''extract_frames.py'', ''10'', ''clip.avi'', ''out''] = Inl (SysExit None) \<and>
   exit_status (Inl (SysExit None) :: failure + (string \<times> nat \<times> ndarray) list) = 0 \<and>
   exit_message (Inl (SysExit None) :: failure + (string \<times> nat \<times> ndarray) list) = None"
  by (simp add: main_def read_video_def face_pass_def track_def detect_face_def
      exit_status_def exit_message_def)


end
